theory Spec2Isabelle
  imports Main "HOL-Library.Multiset" "HOL-Library.Sublist"
begin

section \<open>Python values: errors and strings\<close>

text \<open>
  The two scripts \<^verbatim>\<open>auto-win.py\<close> and \<^verbatim>\<open>adjwin.py\<close> are embedded as HOL functions.
  An exception of the source is a value \<open>Inl e\<close> of a sum type; a normal result is \<open>Inr v\<close>.
  Text is a \<open>string\<close>; a character is read as a code point below 256.
\<close>

datatype py_error =
  IndexError | KeyError | TypeError | ValueError | AttributeError
  | RuntimeError | CalledProcessError

text \<open>\<^verbatim>\<open>str.isspace\<close>, which is also the class \<^verbatim>\<open>\s\<close> of \<^verbatim>\<open>re\<close> on text.\<close>

definition isspace :: "char \<Rightarrow> bool" where
  "isspace c =
     (let n = (of_char c :: nat)
      in (9 \<le> n \<and> n \<le> 13) \<or> (28 \<le> n \<and> n \<le> 32) \<or> n = 133 \<or> n = 160)"

definition lower_char :: "char \<Rightarrow> char" where
  "lower_char c =
     (let n = (of_char c :: nat)
      in if (65 \<le> n \<and> n \<le> 90) \<or> (192 \<le> n \<and> n \<le> 222 \<and> n \<noteq> 215)
         then char_of (n + 32) else c)"

text \<open>\<^verbatim>\<open>s.lower()\<close>\<close>

definition lower :: "string \<Rightarrow> string" where
  "lower s = map lower_char s"

text \<open>\<^verbatim>\<open>s.startswith(p)\<close>\<close>

fun startswith :: "string \<Rightarrow> string \<Rightarrow> bool" where
  "startswith s [] = True"
| "startswith [] (p # ps) = False"
| "startswith (c # cs) (p # ps) = (c = p \<and> startswith cs ps)"

text \<open>\<^verbatim>\<open>sub in s\<close>: case-sensitive substring containment.\<close>

fun str_in :: "string \<Rightarrow> string \<Rightarrow> bool" where
  "str_in sub [] = (sub = [])"
| "str_in sub (c # cs) = (startswith (c # cs) sub \<or> str_in sub cs)"

text \<open>\<^verbatim>\<open>s.strip()\<close>\<close>

definition strip :: "string \<Rightarrow> string" where
  "strip s = rev (dropWhile isspace (rev (dropWhile isspace s)))"

text \<open>\<^verbatim>\<open>s.split('\n')\<close>: always at least one piece.\<close>

fun split_nl :: "string \<Rightarrow> string list" where
  "split_nl [] = [[]]"
| "split_nl (c # cs) =
     (if c = CHR 0x0A then [] # split_nl cs
      else (case split_nl cs of [] \<Rightarrow> [[c]] | l # ls \<Rightarrow> (c # l) # ls))"

text \<open>
  \<^verbatim>\<open>s.split(maxsplit=n)\<close>: at most \<open>n\<close> fields are cut at runs of whitespace; what is
  left after them, leading whitespace skipped, is the last piece when it is not empty.
\<close>

fun split_max :: "nat \<Rightarrow> string \<Rightarrow> string list" where
  "split_max 0 s =
     (let r = dropWhile isspace s in if r = [] then [] else [r])"
| "split_max (Suc n) s =
     (let r = dropWhile isspace s
      in if r = [] then []
         else takeWhile (\<lambda>c. \<not> isspace c) r
              # split_max n (dropWhile (\<lambda>c. \<not> isspace c) r))"

text \<open>\<^verbatim>\<open>s.split()\<close>: the whitespace-separated fields of \<open>s\<close>, with no limit.\<close>

function py_split :: "string \<Rightarrow> string list" where
  "py_split s =
     (if dropWhile isspace s = [] then []
      else takeWhile (\<lambda>c. \<not> isspace c) (dropWhile isspace s)
           # py_split (dropWhile (\<lambda>c. \<not> isspace c) (dropWhile isspace s)))"
  by pat_completeness auto
termination
proof (relation "measure length")
  show "wf (measure length)" by simp
next
  fix s :: string
  assume ne: "dropWhile isspace s \<noteq> []"
  then obtain c cs where r: "dropWhile isspace s = c # cs"
    by (cases "dropWhile isspace s") auto
  have "\<not> isspace c"
    using hd_dropWhile [OF ne] r by simp
  then have "length (dropWhile (\<lambda>c. \<not> isspace c) (c # cs)) \<le> length cs"
    by (simp add: length_dropWhile_le)
  moreover have "length (c # cs) \<le> length s"
    using length_dropWhile_le [of isspace s] r by simp
  ultimately show
    "(dropWhile (\<lambda>c. \<not> isspace c) (dropWhile isspace s), s) \<in> measure length"
    using r by simp
qed

declare py_split.simps [simp del]

text \<open>
  \<^verbatim>\<open>int(s)\<close> on text: surrounding whitespace, an optional sign, then decimal digits, where
  single underscores may stand between digits. \<open>None\<close> is the source's \<^verbatim>\<open>ValueError\<close>.
\<close>

definition is_digit :: "char \<Rightarrow> bool" where
  "is_digit c = (let n = (of_char c :: nat) in 48 \<le> n \<and> n \<le> 57)"

definition digit_val :: "char \<Rightarrow> nat" where
  "digit_val c = of_char c - 48"

fun parse_digits :: "nat \<Rightarrow> string \<Rightarrow> nat option" where
  "parse_digits acc [] = Some acc"
| "parse_digits acc [c] =
     (if is_digit c then Some (10 * acc + digit_val c) else None)"
| "parse_digits acc (c # d # ds) =
     (if is_digit c then parse_digits (10 * acc + digit_val c) (d # ds)
      else if c = CHR ''_'' \<and> is_digit d
           then parse_digits (10 * acc + digit_val d) ds
           else None)"

definition py_nat :: "string \<Rightarrow> nat option" where
  "py_nat s =
     (case s of [] \<Rightarrow> None
      | c # cs \<Rightarrow> if is_digit c then parse_digits (digit_val c) cs else None)"

definition py_int :: "string \<Rightarrow> int option" where
  "py_int s =
     (case strip s of
        [] \<Rightarrow> None
      | c # cs \<Rightarrow>
          if c = CHR ''-'' then map_option (\<lambda>n. - int n) (py_nat cs)
          else if c = CHR ''+'' then map_option int (py_nat cs)
          else map_option int (py_nat (c # cs)))"

definition to_int :: "string \<Rightarrow> py_error + int" where
  "to_int s = (case py_int s of None \<Rightarrow> Inl ValueError | Some n \<Rightarrow> Inr n)"

text \<open>\<^verbatim>\<open>xs[i]\<close> for a non-negative constant index.\<close>

definition idx :: "'a list \<Rightarrow> nat \<Rightarrow> py_error + 'a" where
  "idx xs i = (if i < length xs then Inr (xs ! i) else Inl IndexError)"


section \<open>auto-win.py: monitors and configuration\<close>

record Monitor =
  manufacturer :: string
  model :: string
  serial :: string
  built_in :: bool

text \<open>
  A dictionary with exactly the keys \<^verbatim>\<open>manufacturer\<close>, \<^verbatim>\<open>model\<close> and \<^verbatim>\<open>serial\<close>: what
  \<^verbatim>\<open>Monitor.as_dict\<close> returns, and an element of a configured monitor list.
\<close>

record mon_dict =
  d_manufacturer :: string
  d_model :: string
  d_serial :: string

definition as_dict :: "Monitor \<Rightarrow> mon_dict" where
  "as_dict m =
     \<lparr>d_manufacturer = manufacturer m, d_model = model m, d_serial = serial m\<rparr>"

text \<open>The value of the key \<^verbatim>\<open>built in\<close> of the monitor map.\<close>

record bi_entry =
  bi_manufacturer :: string
  bi_model :: string
  bi_map :: string

text \<open>A placement rule of a layout profile (\<^verbatim>\<open>name\<close>, \<^verbatim>\<open>width\<close> and \<^verbatim>\<open>height\<close> of the JSON).\<close>

record rule =
  r_name :: string
  xoff :: int
  yoff :: int
  r_width :: int
  r_height :: int
  desk :: int

text \<open>
  The loaded JSON configuration. The monitor map is a dictionary whose values are a
  dictionary (the built-in entry) or a list of monitor dictionaries; the configuration maps
  a name to a list of rules, and the key \<^verbatim>\<open>MON_MAP\<close> to the monitor map. Dictionaries are
  association lists in insertion order, looked up with \<open>map_of\<close>.
\<close>

datatype mm_value = BuiltIn bi_entry | MonSet "mon_dict list"

datatype conf_value = Profile "rule list" | MonMap "(string \<times> mm_value) list"

type_synonym config = "(string \<times> conf_value) list"

definition SYS_PATH :: string where
  "SYS_PATH = ''/sys/class/drm''"

definition MON_MAP :: string where
  "MON_MAP = ''_mon_map_''"

definition UNKNOWN_STATE :: string where
  "UNKNOWN_STATE = ''unknown''"

subsection \<open>The state file\<close>

text \<open>
  The state file \<open>sf\<close> is \<open>None\<close> when it does not exist, else its content.
  \<^verbatim>\<open>get_state\<close> reads it whole, \<^verbatim>\<open>set_state\<close> replaces it.
\<close>

definition get_state :: "string option \<Rightarrow> string option" where
  "get_state sf = sf"

definition set_state :: "string \<Rightarrow> string option \<Rightarrow> string option" where
  "set_state state sf = Some state"

subsection \<open>Monitor identity extraction\<close>

text \<open>
  \<^verbatim>\<open>get_edid_info\<close>: \<open>out\<close> is what \<^verbatim>\<open>edid-decode\<close> printed for \<open>path\<close>.
\<close>

definition get_edid_info :: "string \<Rightarrow> string \<Rightarrow> string option" where
  "get_edid_info path out =
     (if startswith out (''EDID of '' @ [CHR 0x27] @ path @ [CHR 0x27] @ '' was empty'')
      then None else Some out)"

text \<open>
  The pattern \<^verbatim>\<open>serial\s+number:\s+['"]?([^'"\s]+)\<close>, case-insensitive. \<open>match_ci\<close> matches a
  lower-case literal and returns the rest; \<open>ws_plus\<close> is the greedy \<^verbatim>\<open>\s+\<close> (what follows
  it in the pattern is never whitespace, so giving whitespace back cannot help);
  \<open>serial_group\<close> skips one optional quote and returns group 1.
\<close>

fun match_ci :: "string \<Rightarrow> string \<Rightarrow> string option" where
  "match_ci [] s = Some s"
| "match_ci (p # ps) [] = None"
| "match_ci (p # ps) (c # cs) = (if lower_char c = p then match_ci ps cs else None)"

definition ws_plus :: "string \<Rightarrow> string option" where
  "ws_plus s =
     (case s of [] \<Rightarrow> None
      | c # cs \<Rightarrow> if isspace c then Some (dropWhile isspace cs) else None)"

definition is_quote :: "char \<Rightarrow> bool" where
  "is_quote c = (c = CHR 0x27 \<or> c = CHR 0x22)"

definition serial_group :: "string \<Rightarrow> string option" where
  "serial_group s =
     (let r = (case s of [] \<Rightarrow> [] | c # cs \<Rightarrow> if is_quote c then cs else s);
          g = takeWhile (\<lambda>c. \<not> is_quote c \<and> \<not> isspace c) r
      in if g = [] then None else Some g)"

definition serial_at :: "string \<Rightarrow> string option" where
  "serial_at s =
     (case match_ci ''serial'' s of None \<Rightarrow> None | Some s1 \<Rightarrow>
      (case ws_plus s1 of None \<Rightarrow> None | Some s2 \<Rightarrow>
       (case match_ci ''number:'' s2 of None \<Rightarrow> None | Some s3 \<Rightarrow>
        (case ws_plus s3 of None \<Rightarrow> None | Some s4 \<Rightarrow> serial_group s4))))"

text \<open>\<^verbatim>\<open>serial_reg.search(line)\<close>: the leftmost match, as its group 1.\<close>

fun serial_search :: "string \<Rightarrow> string option" where
  "serial_search [] = None"
| "serial_search (c # cs) =
     (case serial_at (c # cs) of Some g \<Rightarrow> Some g | None \<Rightarrow> serial_search cs)"

text \<open>\<^verbatim>\<open>line.split()[1]\<close>\<close>

definition second_word :: "string \<Rightarrow> py_error + string" where
  "second_word line = idx (py_split line) 1"

text \<open>
  The loop of \<^verbatim>\<open>get_mon_from_edid\<close> over the remaining lines, with the three accumulated
  fields. Falling off the end of the loop returns Python's \<^verbatim>\<open>None\<close>. The built-in entry
  is subscripted only in the last branch; a list there raises \<^verbatim>\<open>TypeError\<close>.
\<close>

fun scan_edid ::
  "string list \<Rightarrow> string \<Rightarrow> string \<Rightarrow> string \<Rightarrow> mm_value \<Rightarrow> py_error + Monitor option"
where
  "scan_edid [] mf mo se bi = Inr None"
| "scan_edid (line # rest) mf mo se bi =
     (if str_in ''manufacturer:'' (lower line) then
        (case second_word line of
           Inl e \<Rightarrow> Inl e
         | Inr w \<Rightarrow> scan_edid rest w mo se bi)
      else if str_in ''model:'' (lower line) then
        (case second_word line of
           Inl e \<Rightarrow> Inl e
         | Inr w \<Rightarrow> scan_edid rest mf w se bi)
      else
        (case serial_search line of
           Some g \<Rightarrow> scan_edid rest mf mo g bi
         | None \<Rightarrow>
             if se \<noteq> [] then
               Inr (Some \<lparr>manufacturer = mf, model = mo, serial = se, built_in = False\<rparr>)
             else
               (case bi of
                  MonSet l \<Rightarrow> Inl TypeError
                | BuiltIn b \<Rightarrow>
                    if mf = bi_manufacturer b \<and> mo = bi_model b then
                      Inr (Some \<lparr>manufacturer = mf, model = mo, serial = se,
                                 built_in = True\<rparr>)
                    else scan_edid rest mf mo se bi)))"

definition get_mon_from_edid :: "string \<Rightarrow> mm_value \<Rightarrow> py_error + Monitor option" where
  "get_mon_from_edid edid_info bi = scan_edid (split_nl edid_info) [] [] [] bi"

text \<open>
  A directory entry of \<^verbatim>\<open>SYS_PATH\<close>: its name, whether its \<^verbatim>\<open>edid\<close> file exists, and what
  \<^verbatim>\<open>edid-decode\<close> prints for that file.
\<close>

record drm_entry =
  entry_name :: string
  edid_exists :: bool
  edid_stdout :: string

definition edid_path :: "string \<Rightarrow> string" where
  "edid_path d = SYS_PATH @ ''/'' @ d @ ''/edid''"

text \<open>
  The loop of \<^verbatim>\<open>get_conn_monitors\<close>. What \<^verbatim>\<open>get_mon_from_edid\<close> returns is appended as it
  is, \<^verbatim>\<open>None\<close> included.
\<close>

fun conn_loop :: "drm_entry list \<Rightarrow> mm_value \<Rightarrow> py_error + Monitor option list" where
  "conn_loop [] bi = Inr []"
| "conn_loop (d # ds) bi =
     (if \<not> edid_exists d then conn_loop ds bi
      else
        (case get_edid_info (edid_path (entry_name d)) (edid_stdout d) of
           None \<Rightarrow> conn_loop ds bi
         | Some info \<Rightarrow>
             (case get_mon_from_edid info bi of
                Inl e \<Rightarrow> Inl e
              | Inr m \<Rightarrow>
                  (case conn_loop ds bi of
                     Inl e \<Rightarrow> Inl e
                   | Inr ms \<Rightarrow> Inr (m # ms)))))"

text \<open>\<^verbatim>\<open>conf[MON_MAP]\<close>, then a string subscript on it (a list raises \<^verbatim>\<open>TypeError\<close>).\<close>

definition mon_map_item :: "config \<Rightarrow> string \<Rightarrow> py_error + mm_value" where
  "mon_map_item conf k =
     (case map_of conf MON_MAP of
        None \<Rightarrow> Inl KeyError
      | Some (Profile p) \<Rightarrow> Inl TypeError
      | Some (MonMap mm) \<Rightarrow>
          (case map_of mm k of None \<Rightarrow> Inl KeyError | Some v \<Rightarrow> Inr v))"

definition get_conn_monitors ::
  "config \<Rightarrow> drm_entry list \<Rightarrow> py_error + Monitor option list"
where
  "get_conn_monitors conf entries =
     (case mon_map_item conf ''built in'' of
        Inl e \<Rightarrow> Inl e
      | Inr bi \<Rightarrow> conn_loop entries bi)"

subsection \<open>Monitor set classification\<close>

definition is_mon_match :: "Monitor list \<Rightarrow> mon_dict list \<Rightarrow> bool" where
  "is_mon_match mons mlist =
     (if length mons \<noteq> length mlist then False
      else list_all (\<lambda>d. d \<in> set mlist) (map as_dict mons))"

text \<open>
  \<^verbatim>\<open>is_mon_match\<close> on any value of the monitor map. The built-in dictionary has three keys,
  and testing whether a dictionary is one of its keys raises \<^verbatim>\<open>TypeError\<close>.
\<close>

definition is_mon_match_value :: "Monitor list \<Rightarrow> mm_value \<Rightarrow> py_error + bool" where
  "is_mon_match_value mons v =
     (case v of
        MonSet mlist \<Rightarrow> Inr (is_mon_match mons mlist)
      | BuiltIn b \<Rightarrow> if length mons \<noteq> 3 then Inr False else Inl TypeError)"

text \<open>\<^verbatim>\<open>len(mons) == 1 and mons[0].built_in\<close>\<close>

definition lone_built_in :: "Monitor option list \<Rightarrow> py_error + bool" where
  "lone_built_in mons =
     (case mons of
        [None] \<Rightarrow> Inl AttributeError
      | [Some m] \<Rightarrow> Inr (built_in m)
      | _ \<Rightarrow> Inr False)"

text \<open>\<^verbatim>\<open>[m for m in mons if not m.built_in]\<close>\<close>

fun drop_built_in :: "Monitor option list \<Rightarrow> py_error + Monitor list" where
  "drop_built_in [] = Inr []"
| "drop_built_in (None # ms) = Inl AttributeError"
| "drop_built_in (Some m # ms) =
     (case drop_built_in ms of
        Inl e \<Rightarrow> Inl e
      | Inr r \<Rightarrow> Inr (if \<not> built_in m then m # r else r))"

text \<open>The loop of \<^verbatim>\<open>get_cur_state_name\<close> over the items of the monitor map.\<close>

fun match_loop :: "(string \<times> mm_value) list \<Rightarrow> Monitor list \<Rightarrow> py_error + string option" where
  "match_loop [] mons = Inr None"
| "match_loop ((nm, mlist) # rest) mons =
     (if nm = ''built in'' then match_loop rest mons
      else
        (case is_mon_match_value mons mlist of
           Inl e \<Rightarrow> Inl e
         | Inr True \<Rightarrow> Inr (Some nm)
         | Inr False \<Rightarrow> match_loop rest mons))"

definition get_cur_state_name ::
  "Monitor option list \<Rightarrow> config \<Rightarrow> py_error + string option"
where
  "get_cur_state_name mons conf =
     (case lone_built_in mons of
        Inl e \<Rightarrow> Inl e
      | Inr True \<Rightarrow>
          (case mon_map_item conf ''built in'' of
             Inl e \<Rightarrow> Inl e
           | Inr (MonSet l) \<Rightarrow> Inl TypeError
           | Inr (BuiltIn b) \<Rightarrow> Inr (Some (bi_map b)))
      | Inr False \<Rightarrow>
          (case drop_built_in mons of
             Inl e \<Rightarrow> Inl e
           | Inr ms \<Rightarrow>
               (case map_of conf MON_MAP of
                  None \<Rightarrow> Inl KeyError
                | Some (Profile p) \<Rightarrow> Inl AttributeError
                | Some (MonMap mm) \<Rightarrow> match_loop mm ms)))"


section \<open>adjwin.py: window inventory and placement\<close>

record ProcInfo =
  wid :: string
  desktop :: int
  pid :: int
  xpos :: int
  ypos :: int
  width :: int
  height :: int
  name :: string
  shell :: bool

text \<open>
  \<^verbatim>\<open>_get_procs\<close>: the table from process id to the fields of its line of the process
  listing \<open>ps_out\<close>. A later line of the same process id replaces an earlier one.
\<close>

fun procs_loop ::
  "string list \<Rightarrow> (int \<rightharpoonup> string list) \<Rightarrow> py_error + (int \<rightharpoonup> string list)"
where
  "procs_loop [] ret = Inr ret"
| "procs_loop (l # ls) ret =
     (if startswith (strip l) ''USER'' \<or> strip l = [] then procs_loop ls ret
      else
        (case idx (split_max 10 (strip (strip l))) 1 of
           Inl e \<Rightarrow> Inl e
         | Inr p \<Rightarrow>
             (case to_int p of
                Inl e \<Rightarrow> Inl e
              | Inr n \<Rightarrow> procs_loop ls (ret(n \<mapsto> split_max 10 (strip (strip l)))))))"

definition get_procs :: "string \<Rightarrow> py_error + (int \<rightharpoonup> string list)" where
  "get_procs ps_out = procs_loop (split_nl ps_out) Map.empty"

text \<open>
  \<^verbatim>\<open>ProcInfo.is_shell\<close>. The source builds the table on the first call and keeps it in
  \<^verbatim>\<open>PROC_CACHE\<close>; here every call builds it from the same listing.
\<close>

definition is_shell :: "string \<Rightarrow> int \<Rightarrow> py_error + bool" where
  "is_shell ps_out p =
     (case get_procs ps_out of
        Inl e \<Rightarrow> Inl e
      | Inr cache \<Rightarrow>
          (case cache p of
             None \<Rightarrow> Inl KeyError
           | Some parts \<Rightarrow>
               (case idx parts 10 of
                  Inl e \<Rightarrow> Inl e
                | Inr cmd \<Rightarrow> Inr (str_in ''gnome-terminal'' cmd))))"

text \<open>\<^verbatim>\<open>int(i[k])\<close>\<close>

definition int_field :: "string list \<Rightarrow> nat \<Rightarrow> py_error + int" where
  "int_field i k = (case idx i k of Inl e \<Rightarrow> Inl e | Inr s \<Rightarrow> to_int s)"

text \<open>\<^verbatim>\<open>ProcInfo._parse_input\<close>, the assignments in the source's order.\<close>

definition parse_input :: "string \<Rightarrow> string \<Rightarrow> py_error + ProcInfo" where
  "parse_input line ps_out =
     (case idx (split_max 8 line) 0 of Inl e \<Rightarrow> Inl e | Inr v_wid \<Rightarrow>
      (case int_field (split_max 8 line) 1 of Inl e \<Rightarrow> Inl e | Inr v_desktop \<Rightarrow>
       (case int_field (split_max 8 line) 2 of Inl e \<Rightarrow> Inl e | Inr v_pid \<Rightarrow>
        (case int_field (split_max 8 line) 3 of Inl e \<Rightarrow> Inl e | Inr v_xpos \<Rightarrow>
         (case int_field (split_max 8 line) 4 of Inl e \<Rightarrow> Inl e | Inr v_ypos \<Rightarrow>
          (case int_field (split_max 8 line) 5 of Inl e \<Rightarrow> Inl e | Inr v_width \<Rightarrow>
           (case int_field (split_max 8 line) 6 of Inl e \<Rightarrow> Inl e | Inr v_height \<Rightarrow>
            (case idx (split_max 8 line) 8 of Inl e \<Rightarrow> Inl e | Inr v_name \<Rightarrow>
             (case is_shell ps_out v_pid of Inl e \<Rightarrow> Inl e | Inr v_shell \<Rightarrow>
                Inr \<lparr>wid = v_wid, desktop = v_desktop, pid = v_pid, xpos = v_xpos,
                     ypos = v_ypos, width = v_width, height = v_height, name = v_name,
                     shell = v_shell\<rparr>)))))))))"

text \<open>The loop of \<^verbatim>\<open>get_proc_info\<close> over the lines of the window listing.\<close>

fun proc_info_loop :: "string list \<Rightarrow> string \<Rightarrow> py_error + ProcInfo list" where
  "proc_info_loop [] ps_out = Inr []"
| "proc_info_loop (line # rest) ps_out =
     (if strip line = [] then proc_info_loop rest ps_out
      else
        (case parse_input (strip line) ps_out of
           Inl e \<Rightarrow> Inl e
         | Inr p \<Rightarrow>
             (case proc_info_loop rest ps_out of
                Inl e \<Rightarrow> Inl e
              | Inr ret \<Rightarrow> Inr (p # ret))))"

definition get_proc_info :: "string \<Rightarrow> string \<Rightarrow> py_error + ProcInfo list" where
  "get_proc_info wm_out ps_out = proc_info_loop (split_nl wm_out) ps_out"

subsection \<open>Placement\<close>

text \<open>The two commands that \<^verbatim>\<open>set_window\<close> runs, in order.\<close>

datatype wm_cmd =
  MoveResize string int int int int
  | ToDesktop string int


text \<open>
  The inner loop of \<^verbatim>\<open>move_windows\<close>: the index and the record of the first window, from
  index \<open>i\<close> on, whose title contains \<open>sub\<close>.
\<close>

fun first_match :: "string \<Rightarrow> ProcInfo list \<Rightarrow> nat \<Rightarrow> (nat \<times> ProcInfo) option" where
  "first_match sub [] i = None"
| "first_match sub (w # rest) i =
     (if str_in sub (name w) then Some (i, w) else first_match sub rest (Suc i))"

text \<open>\<^verbatim>\<open>del procs[i]\<close> for an index in range.\<close>

definition del_at :: "nat \<Rightarrow> 'a list \<Rightarrow> 'a list" where
  "del_at i xs = take i xs @ drop (Suc i) xs"

text \<open>
  The outer loop of \<^verbatim>\<open>move_windows\<close>. It returns the windows left and the calls of
  \<^verbatim>\<open>set_window\<close> it made, in order, each as the window id and the rule.
\<close>

fun move_windows_loop ::
  "rule list \<Rightarrow> ProcInfo list \<Rightarrow> ProcInfo list \<times> (string \<times> rule) list"
where
  "move_windows_loop [] procs = (procs, [])"
| "move_windows_loop (win # prof) procs =
     (case first_match (r_name win) procs 0 of
        None \<Rightarrow> move_windows_loop prof procs
      | Some (i, w) \<Rightarrow>
          (case move_windows_loop prof (del_at i procs) of
             (left, calls) \<Rightarrow> (left, (wid w, win) # calls)))"






section \<open>auto-win.py: state transition control\<close>

text \<open>
  One run of \<^verbatim>\<open>main\<close>: what it returns or raises, the state file after it, the window
  commands run by the placement tool it started, and how many warnings it logged.
\<close>

record run =
  outcome :: "py_error + int"
  state_file :: "string option"
  commands :: "wm_cmd list"
  warnings :: nat

text \<open>
  \<^verbatim>\<open>adjust_windows\<close>. \<open>adjwin\<close> is the placement tool as a process: from the state name
  to its exit status and the commands it ran; \<^verbatim>\<open>check=True\<close> raises on a status other than 0.
\<close>

definition adjust_windows ::
  "string \<Rightarrow> (string \<Rightarrow> int \<times> wm_cmd list) \<Rightarrow> string option
     \<Rightarrow> (py_error + unit) \<times> string option \<times> wm_cmd list"
where
  "adjust_windows cur_state adjwin sf =
     (if cur_state \<noteq> UNKNOWN_STATE then
        (case adjwin cur_state of
           (rc, cmds) \<Rightarrow>
             if rc \<noteq> 0 then (Inl CalledProcessError, sf, cmds)
             else (Inr (), set_state cur_state sf, cmds))
      else (Inr (), set_state cur_state sf, []))"

definition auto_win_main ::
  "bool \<Rightarrow> config \<Rightarrow> drm_entry list \<Rightarrow> (string \<Rightarrow> int \<times> wm_cmd list) \<Rightarrow> string option
     \<Rightarrow> run"
where
  "auto_win_main monitors_only conf entries adjwin sf =
     (case get_conn_monitors conf entries of
        Inl e \<Rightarrow> \<lparr>outcome = Inl e, state_file = sf, commands = [], warnings = 0\<rparr>
      | Inr mons \<Rightarrow>
          if monitors_only then
            \<lparr>outcome = Inr 0, state_file = sf, commands = [], warnings = 0\<rparr>
          else
            (case get_cur_state_name mons conf of
               Inl e \<Rightarrow> \<lparr>outcome = Inl e, state_file = sf, commands = [], warnings = 0\<rparr>
             | Inr found \<Rightarrow>
                 (let cur_state = (case found of None \<Rightarrow> UNKNOWN_STATE | Some n \<Rightarrow> n);
                      warned = (case found of None \<Rightarrow> 1 | Some n \<Rightarrow> 0)
                  in if get_state sf = Some cur_state then
                       \<lparr>outcome = Inr 0, state_file = sf, commands = [],
                        warnings = warned\<rparr>
                     else
                       (case adjust_windows cur_state adjwin sf of
                          (Inl e, sf', cmds) \<Rightarrow>
                            \<lparr>outcome = Inl e, state_file = sf', commands = cmds,
                             warnings = warned\<rparr>
                        | (Inr u, sf', cmds) \<Rightarrow>
                            \<lparr>outcome = Inr 0, state_file = sf', commands = cmds,
                             warnings = warned\<rparr>))))"


section \<open>The matcher as the specification words it\<close>

text \<open>
  Ordered, greedy, first-fit: for each rule in order, the first window of the remaining
  pool whose title contains the rule's name is assigned to the rule and removed from the
  pool; a rule that finds no window is skipped. The result is the list of assignments in
  the order they are made, and the windows left.
\<close>

fun first_fit :: "rule list \<Rightarrow> ProcInfo list \<Rightarrow> (ProcInfo \<times> rule) list \<times> ProcInfo list" where
  "first_fit [] pool = ([], pool)"
| "first_fit (r # rs) pool =
     (case find (\<lambda>w. sublist (r_name r) (name w)) pool of
        None \<Rightarrow> first_fit rs pool
      | Some w \<Rightarrow>
          (case first_fit rs (remove1 w pool) of
             (asg, rest) \<Rightarrow> ((w, r) # asg, rest)))"


section \<open>Strings: substring containment\<close>

lemma startswith_iff: "startswith s p \<longleftrightarrow> prefix p s"
  by (induction s p rule: startswith.induct) auto

lemma str_in_iff: "str_in sub s \<longleftrightarrow> sublist sub s"
proof (induction s)
  case Nil
  show ?case by auto
next
  case (Cons c cs)
  show ?case
    by (simp add: Cons.IH startswith_iff sublist_Cons_right)
qed

section \<open>Monitor set matching\<close>

lemma is_mon_match_iff:
  "is_mon_match mons mlist \<longleftrightarrow>
     length mons = length mlist \<and> set (map as_dict mons) \<subseteq> set mlist"
  by (auto simp: is_mon_match_def list_all_iff)

lemma is_mon_match_perm:
  assumes "mset mons' = mset mons" and "mset mlist' = mset mlist"
  shows "is_mon_match mons' mlist' = is_mon_match mons mlist"
proof -
  have "length mons' = length mons" "length mlist' = length mlist"
    using assms by (metis size_mset)+
  moreover have "set mons' = set mons" "set mlist' = set mlist"
    using assms by (metis set_mset_mset)+
  ultimately show ?thesis
    by (simp add: is_mon_match_iff)
qed

lemma is_mon_match_distinct:
  assumes "distinct (map as_dict mons)" and "distinct mlist"
  shows "is_mon_match mons mlist \<longleftrightarrow> set (map as_dict mons) = set mlist"
proof
  assume m: "is_mon_match mons mlist"
  then have len: "length mons = length mlist"
    and sub: "set (map as_dict mons) \<subseteq> set mlist"
    by (simp_all add: is_mon_match_iff)
  have "card (set (map as_dict mons)) = length mons"
    using assms(1) distinct_card by fastforce
  moreover have "card (set mlist) = length mlist"
    using assms(2) by (rule distinct_card)
  ultimately have "card (set (map as_dict mons)) = card (set mlist)"
    using len by simp
  with sub show "set (map as_dict mons) = set mlist"
    by (simp add: card_subset_eq)
next
  assume eq: "set (map as_dict mons) = set mlist"
  have "length mons = card (set (map as_dict mons))"
    using assms(1) distinct_card by fastforce
  also have "\<dots> = card (set mlist)" using eq by simp
  also have "\<dots> = length mlist" using assms(2) by (rule distinct_card)
  finally show "is_mon_match mons mlist"
    using eq by (simp add: is_mon_match_iff)
qed

text \<open>
  C3, as stated, fails: the monitor list \<open>[A, A]\<close> is accepted against the configured list
  \<open>[A, B]\<close>, although the two do not denote the same set of identity triples (the first
  denotes a strict subset of the second).
\<close>

theorem is_mon_match_not_set_equality:
  "is_mon_match
     [\<lparr>manufacturer = ''ACME'', model = ''X1'', serial = ''SN1'', built_in = False\<rparr>,
      \<lparr>manufacturer = ''ACME'', model = ''X1'', serial = ''SN1'', built_in = False\<rparr>]
     [\<lparr>d_manufacturer = ''ACME'', d_model = ''X1'', d_serial = ''SN1''\<rparr>,
      \<lparr>d_manufacturer = ''ACME'', d_model = ''X2'', d_serial = ''SN2''\<rparr>]
   \<and> set (map as_dict
       [\<lparr>manufacturer = ''ACME'', model = ''X1'', serial = ''SN1'', built_in = False\<rparr>,
        \<lparr>manufacturer = ''ACME'', model = ''X1'', serial = ''SN1'', built_in = False\<rparr>])
     \<noteq> set [\<lparr>d_manufacturer = ''ACME'', d_model = ''X1'', d_serial = ''SN1''\<rparr>,
            \<lparr>d_manufacturer = ''ACME'', d_model = ''X2'', d_serial = ''SN2''\<rparr>]"
  by (auto simp: is_mon_match_def as_dict_def)

text \<open>
  C3, amended: \<open>is_mon_match\<close> holds exactly when the two lists have the same length and the
  identity triple of every current monitor occurs in the configured list; the result is
  invariant under permutation of either list; and when neither list repeats a triple, it
  holds exactly when the two lists denote the same set of identity triples.
\<close>

theorem is_mon_match_characterisation:
  "is_mon_match mons mlist =
     (length mons = length mlist \<and> list_all (\<lambda>m. as_dict m \<in> set mlist) mons)
   \<and> (mset mons' = mset mons \<and> mset mlist' = mset mlist \<longrightarrow>
        is_mon_match mons' mlist' = is_mon_match mons mlist)
   \<and> (distinct (map as_dict mons) \<and> distinct mlist \<longrightarrow>
        is_mon_match mons mlist = (set (map as_dict mons) = set mlist))"
  using is_mon_match_perm [of mons' mons mlist' mlist] is_mon_match_distinct [of mons mlist]
  by (auto simp: is_mon_match_def list_all_iff)

theorem is_mon_match_characterisation_witness:
  "mset [\<lparr>manufacturer = ''A'', model = ''2'', serial = ''t'', built_in = False\<rparr>,
         \<lparr>manufacturer = ''A'', model = ''1'', serial = ''s'', built_in = False\<rparr>]
     = mset [\<lparr>manufacturer = ''A'', model = ''1'', serial = ''s'', built_in = False\<rparr>,
             \<lparr>manufacturer = ''A'', model = ''2'', serial = ''t'', built_in = False\<rparr>]
   \<and> distinct (map as_dict
        [\<lparr>manufacturer = ''A'', model = ''1'', serial = ''s'', built_in = False\<rparr>,
         \<lparr>manufacturer = ''A'', model = ''2'', serial = ''t'', built_in = False\<rparr>])
   \<and> distinct [\<lparr>d_manufacturer = ''A'', d_model = ''2'', d_serial = ''t''\<rparr>,
               \<lparr>d_manufacturer = ''A'', d_model = ''1'', d_serial = ''s''\<rparr>]
   \<and> is_mon_match
        [\<lparr>manufacturer = ''A'', model = ''2'', serial = ''t'', built_in = False\<rparr>,
         \<lparr>manufacturer = ''A'', model = ''1'', serial = ''s'', built_in = False\<rparr>]
        [\<lparr>d_manufacturer = ''A'', d_model = ''2'', d_serial = ''t''\<rparr>,
         \<lparr>d_manufacturer = ''A'', d_model = ''1'', d_serial = ''s''\<rparr>]
   \<and> is_mon_match
        [\<lparr>manufacturer = ''A'', model = ''1'', serial = ''s'', built_in = False\<rparr>,
         \<lparr>manufacturer = ''A'', model = ''2'', serial = ''t'', built_in = False\<rparr>]
        [\<lparr>d_manufacturer = ''A'', d_model = ''2'', d_serial = ''t''\<rparr>,
         \<lparr>d_manufacturer = ''A'', d_model = ''1'', d_serial = ''s''\<rparr>]"
  using is_mon_match_characterisation
    [of "[\<lparr>manufacturer = ''A'', model = ''1'', serial = ''s'', built_in = False\<rparr>,
          \<lparr>manufacturer = ''A'', model = ''2'', serial = ''t'', built_in = False\<rparr>]"
        "[\<lparr>d_manufacturer = ''A'', d_model = ''2'', d_serial = ''t''\<rparr>,
          \<lparr>d_manufacturer = ''A'', d_model = ''1'', d_serial = ''s''\<rparr>]"
        "[\<lparr>manufacturer = ''A'', model = ''2'', serial = ''t'', built_in = False\<rparr>,
          \<lparr>manufacturer = ''A'', model = ''1'', serial = ''s'', built_in = False\<rparr>]"
        "[\<lparr>d_manufacturer = ''A'', d_model = ''2'', d_serial = ''t''\<rparr>,
          \<lparr>d_manufacturer = ''A'', d_model = ''1'', d_serial = ''s''\<rparr>]"]
  by (simp add: as_dict_def)

section \<open>The monitor set classifier\<close>

text \<open>
  C5: when the current set is one monitor and it is flagged built-in, the classifier
  returns the state name mapped by the configured built-in entry, whatever else the
  monitor map holds.
\<close>

theorem built_in_short_circuit:
  assumes "built_in m"
    and "map_of conf MON_MAP = Some (MonMap mm)"
    and "map_of mm ''built in'' = Some (BuiltIn b)"
  shows "get_cur_state_name [Some m] conf = Inr (Some (bi_map b))"
  using assms by (simp add: get_cur_state_name_def lone_built_in_def mon_map_item_def)

theorem built_in_short_circuit_witness:
  "get_cur_state_name
     [Some \<lparr>manufacturer = ''BOE'', model = ''9'', serial = [], built_in = True\<rparr>]
     [(''_mon_map_'', MonMap
        [(''dock'', MonSet [\<lparr>d_manufacturer = ''BOE'', d_model = ''9'', d_serial = []\<rparr>]),
         (''built in'',
          BuiltIn \<lparr>bi_manufacturer = ''BOE'', bi_model = ''9'', bi_map = ''laptop''\<rparr>)])]
   = Inr (Some ''laptop'')"
  using built_in_short_circuit
    [of "\<lparr>manufacturer = ''BOE'', model = ''9'', serial = [], built_in = True\<rparr>"
        "[(''_mon_map_'', MonMap
            [(''dock'',
              MonSet [\<lparr>d_manufacturer = ''BOE'', d_model = ''9'', d_serial = []\<rparr>]),
             (''built in'',
              BuiltIn \<lparr>bi_manufacturer = ''BOE'', bi_model = ''9'', bi_map = ''laptop''\<rparr>)])]"
        "[(''dock'', MonSet [\<lparr>d_manufacturer = ''BOE'', d_model = ''9'', d_serial = []\<rparr>]),
          (''built in'',
           BuiltIn \<lparr>bi_manufacturer = ''BOE'', bi_model = ''9'', bi_map = ''laptop''\<rparr>)]"
        "\<lparr>bi_manufacturer = ''BOE'', bi_model = ''9'', bi_map = ''laptop''\<rparr>"]
  by (simp add: MON_MAP_def)

section \<open>The window-profile matcher\<close>

lemma first_match_None:
  "first_match sub ws i = None \<longleftrightarrow> find (\<lambda>w. sublist sub (name w)) ws = None"
  by (induction ws arbitrary: i) (auto simp: str_in_iff)

lemma first_match_Some:
  "first_match sub ws i = Some (j, w) \<Longrightarrow>
     find (\<lambda>w. sublist sub (name w)) ws = Some w \<and> i \<le> j \<and> j - i < length ws
     \<and> ws ! (j - i) = w \<and> del_at (j - i) ws = remove1 w ws"
proof (induction ws arbitrary: i)
  case Nil
  then show ?case by simp
next
  case (Cons a ws)
  show ?case
  proof (cases "str_in sub (name a)")
    case True
    with Cons.prems show ?thesis
      by (auto simp: str_in_iff del_at_def)
  next
    case False
    with Cons.prems have fm: "first_match sub ws (Suc i) = Some (j, w)"
      by simp
    from Cons.IH [OF fm] have ih:
      "find (\<lambda>w. sublist sub (name w)) ws = Some w" "Suc i \<le> j" "j - Suc i < length ws"
      "ws ! (j - Suc i) = w" "del_at (j - Suc i) ws = remove1 w ws"
      by simp_all
    have ji: "j - i = Suc (j - Suc i)"
      using ih(2) by simp
    have "str_in sub (name w)"
      using ih(1) by (auto simp: find_Some_iff str_in_iff)
    then have neq: "a \<noteq> w"
      using False by auto
    show ?thesis
      using False ih neq by (simp add: ji str_in_iff del_at_def)
  qed
qed

lemma move_windows_loop_first_fit:
  "move_windows_loop prof procs =
     (snd (first_fit prof procs), map (\<lambda>(w, r). (wid w, r)) (fst (first_fit prof procs)))"
proof (induction prof arbitrary: procs)
  case Nil
  show ?case by simp
next
  case (Cons win prof)
  show ?case
  proof (cases "first_match (r_name win) procs 0")
    case None
    then have "find (\<lambda>w. sublist (r_name win) (name w)) procs = None"
      by (simp add: first_match_None)
    then show ?thesis
      using None Cons.IH [of procs] by simp
  next
    case (Some a)
    obtain j w where a: "a = (j, w)" by (cases a)
    from first_match_Some [of "r_name win" procs 0 j w] Some a
    have f: "find (\<lambda>w. sublist (r_name win) (name w)) procs = Some w"
      and d: "del_at j procs = remove1 w procs"
      by simp_all
    show ?thesis
      using Some a f d Cons.IH [of "remove1 w procs"]
      by (simp split: prod.splits)
  qed
qed


lemma first_fit_subseq: "subseq (map snd (fst (first_fit prof pool))) prof"
proof (induction prof arbitrary: pool)
  case Nil
  show ?case by simp
next
  case (Cons r rs)
  show ?case
    using Cons.IH [of pool] Cons.IH [of "remove1 (the (find (\<lambda>w. sublist (r_name r) (name w)) pool)) pool"]
    by (auto split: option.splits prod.splits)
qed

lemma first_fit_mset:
  "mset (map fst (fst (first_fit prof pool))) + mset (snd (first_fit prof pool)) = mset pool"
proof (induction prof arbitrary: pool)
  case Nil
  show ?case by simp
next
  case (Cons r rs)
  show ?case
  proof (cases "find (\<lambda>w. sublist (r_name r) (name w)) pool")
    case None
    then show ?thesis using Cons.IH [of pool] by simp
  next
    case (Some w)
    then have "w \<in> set pool"
      by (auto simp: find_Some_iff)
    then have "add_mset w (mset (remove1 w pool)) = mset pool"
      by simp
    then show ?thesis
      using Some Cons.IH [of "remove1 w pool"]
      by (auto split: prod.splits)
  qed
qed

lemma distinct_mset_sub:
  assumes "mset xs \<subseteq># mset ys" and "distinct ys"
  shows "distinct xs"
proof -
  obtain C where "mset ys = mset xs + C"
    using assms(1) by (auto simp: mset_subset_eq_exists_conv)
  moreover obtain zs where "C = mset zs"
    using ex_mset [of C] by auto
  ultimately have "mset ys = mset (xs @ zs)"
    by simp
  then have "distinct (xs @ zs)"
    using assms(2) mset_eq_imp_distinct_iff by blast
  then show ?thesis by simp
qed


text \<open>
  C4: the matcher of the source is the ordered, greedy, first-fit matcher: it leaves the
  windows that first-fit leaves, and it calls \<open>set_window\<close> for the assignments of
  first-fit, in their order. A rule with no matching window makes no call and raises
  nothing. On the rules \<open>Firefox\<close>, \<open>fire\<close> and the windows titled \<open>Mozilla Firefox\<close>,
  \<open>firefox - private\<close>, the first rule places the first window and the second rule the
  second.
\<close>

theorem move_windows_first_fit:
  "move_windows_loop prof procs =
     (snd (first_fit prof procs), map (\<lambda>(w, r). (wid w, r)) (fst (first_fit prof procs)))
   \<and> move_windows_loop
       [\<lparr>r_name = ''Firefox'', xoff = 0, yoff = 0, r_width = 800, r_height = 600, desk = 0\<rparr>,
        \<lparr>r_name = ''fire'', xoff = 800, yoff = 0, r_width = 400, r_height = 300, desk = 1\<rparr>]
       [\<lparr>wid = ''0x01'', desktop = 0, pid = 7, xpos = 0, ypos = 0, width = 10, height = 10,
         name = ''Mozilla Firefox'', shell = False\<rparr>,
        \<lparr>wid = ''0x02'', desktop = 0, pid = 8, xpos = 0, ypos = 0, width = 10, height = 10,
         name = ''firefox - private'', shell = False\<rparr>]
     = ([],
        [(''0x01'',
          \<lparr>r_name = ''Firefox'', xoff = 0, yoff = 0, r_width = 800, r_height = 600, desk = 0\<rparr>),
         (''0x02'',
          \<lparr>r_name = ''fire'', xoff = 800, yoff = 0, r_width = 400, r_height = 300, desk = 1\<rparr>)])"
proof
  show "move_windows_loop prof procs =
     (snd (first_fit prof procs), map (\<lambda>(w, r). (wid w, r)) (fst (first_fit prof procs)))"
    by (rule move_windows_loop_first_fit)
next
  show "move_windows_loop
       [\<lparr>r_name = ''Firefox'', xoff = 0, yoff = 0, r_width = 800, r_height = 600, desk = 0\<rparr>,
        \<lparr>r_name = ''fire'', xoff = 800, yoff = 0, r_width = 400, r_height = 300, desk = 1\<rparr>]
       [\<lparr>wid = ''0x01'', desktop = 0, pid = 7, xpos = 0, ypos = 0, width = 10, height = 10,
         name = ''Mozilla Firefox'', shell = False\<rparr>,
        \<lparr>wid = ''0x02'', desktop = 0, pid = 8, xpos = 0, ypos = 0, width = 10, height = 10,
         name = ''firefox - private'', shell = False\<rparr>]
     = ([],
        [(''0x01'',
          \<lparr>r_name = ''Firefox'', xoff = 0, yoff = 0, r_width = 800, r_height = 600, desk = 0\<rparr>),
         (''0x02'',
          \<lparr>r_name = ''fire'', xoff = 800, yoff = 0, r_width = 400, r_height = 300, desk = 1\<rparr>)])"
    by (simp add: del_at_def)
qed

text \<open>
  C6: the calls the matcher makes form an injective partial matching. The rules of the
  calls, in order, are a subsequence of the profile, so each rule of the profile claims at
  most one window; the windows of the calls are, counted with multiplicity, among the
  windows of the inventory, so a window is never claimed twice: when the window ids of
  the inventory are distinct, so are the window ids of the calls.
\<close>

theorem move_windows_injective:
  "subseq (map snd (snd (move_windows_loop prof procs))) prof
   \<and> mset (map fst (snd (move_windows_loop prof procs))) \<subseteq># mset (map wid procs)
   \<and> (distinct (map wid procs) \<longrightarrow>
        distinct (map fst (snd (move_windows_loop prof procs))))"
proof -
  let ?asg = "fst (first_fit prof procs)"
  have calls: "snd (move_windows_loop prof procs) = map (\<lambda>(w, r). (wid w, r)) ?asg"
    by (simp add: move_windows_loop_first_fit)
  have rules: "map snd (snd (move_windows_loop prof procs)) = map snd ?asg"
    unfolding calls by (induction ?asg) (auto split: prod.splits)
  have wids: "map fst (snd (move_windows_loop prof procs)) = map wid (map fst ?asg)"
    unfolding calls by (induction ?asg) (auto split: prod.splits)
  have "mset (map fst ?asg) \<subseteq># mset procs"
    using first_fit_mset [of prof procs] by (metis mset_subset_eq_add_left)
  then have incl: "mset (map wid (map fst ?asg)) \<subseteq># mset (map wid procs)"
    by (metis image_mset_subseteq_mono mset_map)
  have "distinct (map wid (map fst ?asg))" if d: "distinct (map wid procs)"
    using incl d by (rule distinct_mset_sub)
  then show ?thesis
    using first_fit_subseq [of prof procs] incl by (simp add: rules wids)
qed


theorem move_windows_injective_witness:
  "distinct (map wid
     [\<lparr>wid = ''0x01'', desktop = 0, pid = 7, xpos = 0, ypos = 0, width = 10, height = 10,
       name = ''term a'', shell = True\<rparr>,
      \<lparr>wid = ''0x02'', desktop = 0, pid = 8, xpos = 0, ypos = 0, width = 10, height = 10,
       name = ''term b'', shell = True\<rparr>])
   \<and> distinct (map fst (snd (move_windows_loop
       [\<lparr>r_name = ''term'', xoff = 0, yoff = 0, r_width = 1, r_height = 1, desk = 0\<rparr>,
        \<lparr>r_name = ''term'', xoff = 0, yoff = 0, r_width = 1, r_height = 1, desk = 0\<rparr>,
        \<lparr>r_name = ''term'', xoff = 0, yoff = 0, r_width = 1, r_height = 1, desk = 0\<rparr>]
       [\<lparr>wid = ''0x01'', desktop = 0, pid = 7, xpos = 0, ypos = 0, width = 10, height = 10,
         name = ''term a'', shell = True\<rparr>,
        \<lparr>wid = ''0x02'', desktop = 0, pid = 8, xpos = 0, ypos = 0, width = 10, height = 10,
         name = ''term b'', shell = True\<rparr>])))"
  using move_windows_injective
    [of "[\<lparr>r_name = ''term'', xoff = 0, yoff = 0, r_width = 1, r_height = 1, desk = 0\<rparr>,
          \<lparr>r_name = ''term'', xoff = 0, yoff = 0, r_width = 1, r_height = 1, desk = 0\<rparr>,
          \<lparr>r_name = ''term'', xoff = 0, yoff = 0, r_width = 1, r_height = 1, desk = 0\<rparr>]"
        "[\<lparr>wid = ''0x01'', desktop = 0, pid = 7, xpos = 0, ypos = 0, width = 10, height = 10,
           name = ''term a'', shell = True\<rparr>,
          \<lparr>wid = ''0x02'', desktop = 0, pid = 8, xpos = 0, ypos = 0, width = 10, height = 10,
           name = ''term b'', shell = True\<rparr>]"]
  by simp


section \<open>The window-placement tool\<close>



section \<open>State transition control\<close>





lemma drop_built_in_Some:
  "drop_built_in (map Some ms) = Inr (filter (\<lambda>m. \<not> built_in m) ms)"
  by (induction ms) auto

lemma match_loop_none:
  assumes "\<forall>(nm, v) \<in> set mm. nm \<noteq> ''built in'' \<longrightarrow> is_mon_match_value ms v = Inr False"
  shows "match_loop mm ms = Inr None"
  using assms by (induction mm) auto

lemma lone_built_in_Some:
  "lone_built_in (map Some ms) = Inr (\<exists>m. ms = [m] \<and> built_in m)"
  by (cases ms rule: list.exhaust; cases "tl ms") (auto simp: lone_built_in_def)




text \<open>
  C8: let the connected monitors all be identified, let them not be the built-in monitor
  alone, and let the comparison with every named entry of the monitor map return false.
  Then the classifier returns \<open>None\<close>; a run (not in the monitors-only mode) logs one
  warning, runs no window command, leaves \<open>unknown\<close> in the state file and returns 0; and
  the next run on the same monitors runs no window command.
\<close>

theorem unknown_state_persisted:
  assumes "get_conn_monitors conf entries = Inr (map Some ms)"
    and "map_of conf MON_MAP = Some (MonMap mm)"
    and "\<not> (\<exists>m. ms = [m] \<and> built_in m)"
    and "\<forall>(nm, v) \<in> set mm. nm \<noteq> ''built in'' \<longrightarrow>
           is_mon_match_value (filter (\<lambda>m. \<not> built_in m) ms) v = Inr False"
  shows "get_cur_state_name (map Some ms) conf = Inr None
     \<and> auto_win_main False conf entries adjwin sf =
         \<lparr>outcome = Inr 0, state_file = Some UNKNOWN_STATE, commands = [], warnings = 1\<rparr>
     \<and> commands (auto_win_main False conf entries adjwin'
           (state_file (auto_win_main False conf entries adjwin sf))) = []"
proof -
  have lone: "lone_built_in (map Some ms) = Inr False"
    using assms(3) by (simp add: lone_built_in_Some)
  have none: "get_cur_state_name (map Some ms) conf = Inr None"
    using assms(2) match_loop_none [OF assms(4)]
    by (simp add: get_cur_state_name_def lone drop_built_in_Some)
  have run: "auto_win_main False conf entries a sf' =
      \<lparr>outcome = Inr 0, state_file = Some UNKNOWN_STATE, commands = [], warnings = 1\<rparr>"
    for a sf'
    using assms(1) none
    by (simp add: auto_win_main_def get_state_def set_state_def adjust_windows_def)
  show ?thesis
    using none run by simp
qed

theorem unknown_state_persisted_witness:
  "auto_win_main False
      [(''_mon_map_'', MonMap
         [(''built in'', BuiltIn \<lparr>bi_manufacturer = ''BOE'', bi_model = ''9'', bi_map = ''laptop''\<rparr>),
          (''work'', MonSet [\<lparr>d_manufacturer = ''A'', d_model = ''1'', d_serial = ''s''\<rparr>])])]
      [\<lparr>entry_name = ''card0'', edid_exists = True,
        edid_stdout = ''Manufacturer: B'' @ [CHR 0x0A] @ ''Model: 2'' @ [CHR 0x0A]
          @ ''Serial Number: t'' @ [CHR 0x0A]\<rparr>]
      (\<lambda>s. (0, [ToDesktop s 0]))
      (Some ''work'')
     = \<lparr>outcome = Inr 0, state_file = Some ''unknown'', commands = [], warnings = 1\<rparr>"
proof -
  let ?mm = "[(''built in'', BuiltIn \<lparr>bi_manufacturer = ''BOE'', bi_model = ''9'', bi_map = ''laptop''\<rparr>),
          (''work'', MonSet [\<lparr>d_manufacturer = ''A'', d_model = ''1'', d_serial = ''s''\<rparr>])]"
  let ?entries = "[\<lparr>entry_name = ''card0'', edid_exists = True,
        edid_stdout = ''Manufacturer: B'' @ [CHR 0x0A] @ ''Model: 2'' @ [CHR 0x0A]
          @ ''Serial Number: t'' @ [CHR 0x0A]\<rparr>]"
  let ?ms = "[\<lparr>manufacturer = ''B'', model = ''2'', serial = ''t'', built_in = False\<rparr>]"
  have mons: "get_conn_monitors [(''_mon_map_'', MonMap ?mm)] ?entries = Inr (map Some ?ms)"
    by code_simp
  have mm: "map_of [(''_mon_map_'', MonMap ?mm)] MON_MAP = Some (MonMap ?mm)"
    by (simp add: MON_MAP_def)
  have lone: "\<not> (\<exists>m. ?ms = [m] \<and> built_in m)"
    by simp
  have nomatch: "\<forall>(nm, v) \<in> set ?mm. nm \<noteq> ''built in'' \<longrightarrow>
           is_mon_match_value (filter (\<lambda>m. \<not> built_in m) ?ms) v = Inr False"
    by (simp add: is_mon_match_value_def is_mon_match_def as_dict_def)
  show ?thesis
    using unknown_state_persisted [OF mons mm lone nomatch,
        of "\<lambda>s. (0, [ToDesktop s 0])" "Some ''work''"]
    by (simp add: UNKNOWN_STATE_def)
qed



section \<open>The window inventory\<close>

lemma length_split_max:
  "length (split_max n s) = min (Suc n) (length (py_split s))"
proof (induction n arbitrary: s)
  case 0
  show ?case
    by (subst py_split.simps) (simp add: Let_def)
next
  case (Suc n)
  show ?case
    by (subst py_split.simps) (simp add: Let_def Suc.IH)
qed

lemma procs_loop_entry:
  assumes "procs_loop ls ret = Inr cache" and "cache k = Some parts"
  shows "ret k = Some parts \<or> (\<exists>l \<in> set ls. parts = split_max 10 (strip (strip l)))"
  using assms
proof (induction ls arbitrary: ret)
  case Nil
  then show ?case by simp
next
  case (Cons l ls)
  show ?case
  proof (cases "startswith (strip l) ''USER'' \<or> strip l = []")
    case True
    with Cons.prems have "procs_loop ls ret = Inr cache" by simp
    from Cons.IH [OF this Cons.prems(2)] show ?thesis by auto
  next
    case False
    with Cons.prems(1) obtain n where
      "procs_loop ls (ret(n \<mapsto> split_max 10 (strip (strip l)))) = Inr cache"
      by (auto split: sum.splits)
    from Cons.IH [OF this Cons.prems(2)] show ?thesis
      by (auto split: if_splits)
  qed
qed

lemma get_procs_entry:
  assumes "get_procs ps_out = Inr cache" and "cache k = Some parts"
  shows "\<exists>l \<in> set (split_nl ps_out). parts = split_max 10 (strip (strip l))"
  using procs_loop_entry [of "split_nl ps_out" Map.empty cache k parts] assms
  by (simp add: get_procs_def)

lemma parse_input_Inr:
  assumes "parse_input line ps_out = Inr p"
  shows "9 \<le> length (py_split line)
     \<and> (\<exists>cache parts. get_procs ps_out = Inr cache
          \<and> int_field (split_max 8 line) 2 = Inr (pid p)
          \<and> cache (pid p) = Some parts \<and> length parts = 11
          \<and> (\<exists>l \<in> set (split_nl ps_out).
                parts = split_max 10 (strip (strip l))
                \<and> 11 \<le> length (py_split (strip (strip l)))))"
proof -
  from assms obtain v_name where "idx (split_max 8 line) 8 = Inr v_name"
    by (auto simp: parse_input_def split: sum.splits)
  then have "8 < length (split_max 8 line)"
    by (simp add: idx_def split: if_splits)
  then have len: "9 \<le> length (py_split line)"
    by (simp add: length_split_max)
  from assms obtain v_pid v_shell where
    f: "int_field (split_max 8 line) 2 = Inr v_pid"
    and sh: "is_shell ps_out v_pid = Inr v_shell"
    and p: "pid p = v_pid"
    by (auto simp: parse_input_def split: sum.splits)
  from sh obtain cache parts where
    c: "get_procs ps_out = Inr cache" "cache v_pid = Some parts" "10 < length parts"
    by (auto simp: is_shell_def idx_def split: sum.splits option.splits if_splits)
  from get_procs_entry [OF c(1,2)] obtain l where
    l: "l \<in> set (split_nl ps_out)" "parts = split_max 10 (strip (strip l))"
    by auto
  from l(2) c(3) have "length parts = 11" "11 \<le> length (py_split (strip (strip l)))"
    by (simp_all add: length_split_max)
  with len f p c l show ?thesis
    by auto
qed

lemma proc_info_loop_Inr:
  assumes "proc_info_loop ls ps_out = Inr procs" and "line \<in> set ls" and "strip line \<noteq> []"
  shows "\<exists>p. parse_input (strip line) ps_out = Inr p"
  using assms
proof (induction ls arbitrary: procs)
  case Nil
  then show ?case by simp
next
  case (Cons a ls)
  show ?case
  proof (cases "strip a = []")
    case True
    with Cons.prems have "proc_info_loop ls ps_out = Inr procs" "line \<in> set ls"
      by auto
    from Cons.IH [OF this Cons.prems(3)] show ?thesis .
  next
    case False
    with Cons.prems(1) obtain p ret where
      pa: "parse_input (strip a) ps_out = Inr p" and rest: "proc_info_loop ls ps_out = Inr ret"
      by (auto split: sum.splits)
    show ?thesis
    proof (cases "line = a")
      case True
      with pa show ?thesis by auto
    next
      case False
      with Cons.prems(2) have "line \<in> set ls" by simp
      from Cons.IH [OF rest this Cons.prems(3)] show ?thesis .
    qed
  qed
qed

lemma inventory_success:
  assumes "get_proc_info wm_out ps_out = Inr procs"
    and "line \<in> set (split_nl wm_out)" and "strip line \<noteq> []"
  shows "9 \<le> length (py_split (strip line))
     \<and> (\<exists>cache p parts. get_procs ps_out = Inr cache
          \<and> int_field (split_max 8 (strip line)) 2 = Inr p
          \<and> cache p = Some parts \<and> length parts = 11
          \<and> (\<exists>l \<in> set (split_nl ps_out).
                parts = split_max 10 (strip (strip l))
                \<and> 11 \<le> length (py_split (strip (strip l)))))"
proof -
  from proc_info_loop_Inr [of "split_nl wm_out" ps_out procs line] assms
  obtain p where "parse_input (strip line) ps_out = Inr p"
    by (auto simp: get_proc_info_def)
  from parse_input_Inr [OF this] show ?thesis
    by blast
qed

text \<open>
  C10, as stated, fails: the inventory is built from a process listing one of whose
  lines has fewer than 11 fields, because that line is not the line of a window's process.
\<close>

theorem inventory_short_process_line:
  "get_proc_info ''w 0 7 1 2 3 4 h T''
     (''u 7 a b c d e f g h x'' @ [CHR 0x0A] @ ''v 5 y'')
     = Inr [\<lparr>wid = ''w'', desktop = 0, pid = 7, xpos = 1, ypos = 2, width = 3, height = 4,
             name = ''T'', shell = False\<rparr>]
   \<and> ''v 5 y'' \<in> set (split_nl (''u 7 a b c d e f g h x'' @ [CHR 0x0A] @ ''v 5 y''))
   \<and> length (py_split ''v 5 y'') < 11"
  by code_simp

text \<open>
  C10, amended: the inventory is built only if every non-blank line of the window listing
  has at least 9 whitespace-separated fields and names an owning process id that is a key
  of the process table, where the line of the process listing behind that key has at least
  11 fields (the other lines of the process listing need not). When a non-blank line has
  fewer than 9 fields, or its process id is not a key of the table, or the entry of its
  process id has fewer than 11 fields, the whole inventory ends in an exception: no
  window is skipped.
\<close>

theorem inventory_partial:
  assumes "line \<in> set (split_nl wm_out)" and "strip line \<noteq> []"
  shows "(get_proc_info wm_out ps_out = Inr procs \<longrightarrow>
            9 \<le> length (py_split (strip line))
            \<and> (\<exists>cache p parts. get_procs ps_out = Inr cache
                 \<and> int_field (split_max 8 (strip line)) 2 = Inr p
                 \<and> cache p = Some parts \<and> length parts = 11
                 \<and> (\<exists>l \<in> set (split_nl ps_out).
                       parts = split_max 10 (strip (strip l))
                       \<and> 11 \<le> length (py_split (strip (strip l))))))
     \<and> (length (py_split (strip line)) < 9
          \<or> (\<exists>cache p. get_procs ps_out = Inr cache
                \<and> int_field (split_max 8 (strip line)) 2 = Inr p
                \<and> (cache p = None \<or> (\<exists>parts. cache p = Some parts \<and> length parts < 11)))
         \<longrightarrow> (\<exists>e. get_proc_info wm_out ps_out = Inl e))"
proof (intro conjI impI)
  assume "get_proc_info wm_out ps_out = Inr procs"
  from inventory_success [OF this assms]
  show "9 \<le> length (py_split (strip line))" by simp
next
  assume "get_proc_info wm_out ps_out = Inr procs"
  from inventory_success [OF this assms]
  show "\<exists>cache p parts. get_procs ps_out = Inr cache
          \<and> int_field (split_max 8 (strip line)) 2 = Inr p
          \<and> cache p = Some parts \<and> length parts = 11
          \<and> (\<exists>l \<in> set (split_nl ps_out).
                parts = split_max 10 (strip (strip l))
                \<and> 11 \<le> length (py_split (strip (strip l))))" by simp
next
  assume bad: "length (py_split (strip line)) < 9
          \<or> (\<exists>cache p. get_procs ps_out = Inr cache
                \<and> int_field (split_max 8 (strip line)) 2 = Inr p
                \<and> (cache p = None \<or> (\<exists>parts. cache p = Some parts \<and> length parts < 11)))"
  show "\<exists>e. get_proc_info wm_out ps_out = Inl e"
  proof (cases "get_proc_info wm_out ps_out")
    case (Inl e)
    then show ?thesis by simp
  next
    case (Inr ok)
    from inventory_success [OF this assms] bad have False
      by fastforce
    then show ?thesis ..
  qed
qed

theorem inventory_partial_witness:
  "(\<exists>e. get_proc_info ''w 0 0 1 2 3 4 h T'' ''u 7 a b c d e f g h x'' = Inl e)
   \<and> get_proc_info ''w 0 0 1 2 3 4 h T'' ''u 7 a b c d e f g h x'' = Inl KeyError
   \<and> 9 \<le> length (py_split (strip ''w 0 7 1 2 3 4 h T''))"
proof -
  have line: "''w 0 0 1 2 3 4 h T'' \<in> set (split_nl ''w 0 0 1 2 3 4 h T'')"
    and nonblank: "strip ''w 0 0 1 2 3 4 h T'' \<noteq> []"
    by code_simp+
  have "case get_procs ''u 7 a b c d e f g h x'' of
          Inl e \<Rightarrow> False | Inr cache \<Rightarrow> cache 0 = None"
    by code_simp
  then obtain cache where cache: "get_procs ''u 7 a b c d e f g h x'' = Inr cache"
    and absent: "cache 0 = None"
    by (auto split: sum.splits)
  have pid0: "int_field (split_max 8 (strip ''w 0 0 1 2 3 4 h T'')) 2 = Inr 0"
    by code_simp
  have raised: "get_proc_info ''w 0 0 1 2 3 4 h T'' ''u 7 a b c d e f g h x'' = Inl KeyError"
    by code_simp
  have line': "''w 0 7 1 2 3 4 h T'' \<in> set (split_nl ''w 0 7 1 2 3 4 h T'')"
    and nonblank': "strip ''w 0 7 1 2 3 4 h T'' \<noteq> []"
    by code_simp+
  have built: "get_proc_info ''w 0 7 1 2 3 4 h T'' ''u 7 a b c d e f g h x'' =
      Inr [\<lparr>wid = ''w'', desktop = 0, pid = 7, xpos = 1, ypos = 2, width = 3, height = 4,
             name = ''T'', shell = False\<rparr>]"
    by code_simp
  have "\<exists>e. get_proc_info ''w 0 0 1 2 3 4 h T'' ''u 7 a b c d e f g h x'' = Inl e"
    using inventory_partial [OF line nonblank, of "''u 7 a b c d e f g h x''"]
      cache pid0 absent by blast
  moreover have "9 \<le> length (py_split (strip ''w 0 7 1 2 3 4 h T''))"
    using inventory_partial [OF line' nonblank', of "''u 7 a b c d e f g h x''"] built
    by blast
  ultimately show ?thesis
    using raised by simp
qed

section \<open>Monitor identity extraction\<close>

lemma classifier_rejects_None:
  assumes "None \<in> set mons"
  shows "get_cur_state_name mons conf = Inl AttributeError"
proof -
  have d: "drop_built_in mons = Inl AttributeError"
    using assms
  proof (induction mons)
    case Nil
    then show ?case by simp
  next
    case (Cons a mons)
    then show ?case
      by (cases a) (auto split: sum.splits)
  qed
  have "lone_built_in mons = Inl AttributeError \<or> lone_built_in mons = Inr False"
  proof (cases mons)
    case Nil
    then show ?thesis by (simp add: lone_built_in_def)
  next
    case (Cons a rest)
    show ?thesis
    proof (cases rest)
      case Nil
      with Cons assms show ?thesis by (simp add: lone_built_in_def)
    next
      case (Cons b more)
      with \<open>mons = a # rest\<close> show ?thesis
        by (cases a) (simp_all add: lone_built_in_def)
    qed
  qed
  then show ?thesis
    using d by (auto simp: get_cur_state_name_def)
qed

lemma main_raises_on_None:
  assumes "get_conn_monitors conf entries = Inr mons" and "None \<in> set mons"
  shows "outcome (auto_win_main False conf entries adjwin sf) = Inl AttributeError"
  using assms(1) classifier_rejects_None [OF assms(2), of conf]
  by (simp add: auto_win_main_def)

text \<open>
  C1, on the code: a descriptor with no serial number line, whose manufacturer and model
  are not the built-in's, makes \<open>get_mon_from_edid\<close> return \<open>None\<close>; the source appends
  it to the monitor list, and the classifier raises \<open>AttributeError\<close> on that list.
\<close>

theorem unidentified_descriptor_raises:
  "get_mon_from_edid (''Manufacturer: ACME'' @ [CHR 0x0A] @ ''Model: X1'' @ [CHR 0x0A])
       (BuiltIn \<lparr>bi_manufacturer = ''BOE'', bi_model = ''9'', bi_map = ''laptop''\<rparr>)
     = Inr None
   \<and> get_conn_monitors
       [(''_mon_map_'', MonMap
          [(''built in'',
            BuiltIn \<lparr>bi_manufacturer = ''BOE'', bi_model = ''9'', bi_map = ''laptop''\<rparr>)])]
       [\<lparr>entry_name = ''card0'', edid_exists = True,
         edid_stdout = ''Manufacturer: ACME'' @ [CHR 0x0A] @ ''Model: X1'' @ [CHR 0x0A]\<rparr>]
     = Inr [None]
   \<and> get_cur_state_name [None]
       [(''_mon_map_'', MonMap
          [(''built in'',
            BuiltIn \<lparr>bi_manufacturer = ''BOE'', bi_model = ''9'', bi_map = ''laptop''\<rparr>)])]
     = Inl AttributeError
   \<and> outcome (auto_win_main False
       [(''_mon_map_'', MonMap
          [(''built in'',
            BuiltIn \<lparr>bi_manufacturer = ''BOE'', bi_model = ''9'', bi_map = ''laptop''\<rparr>)])]
       [\<lparr>entry_name = ''card0'', edid_exists = True,
         edid_stdout = ''Manufacturer: ACME'' @ [CHR 0x0A] @ ''Model: X1'' @ [CHR 0x0A]\<rparr>]
       adjwin sf)
     = Inl AttributeError"
proof -
  let ?conf = "[(''_mon_map_'', MonMap
          [(''built in'',
            BuiltIn \<lparr>bi_manufacturer = ''BOE'', bi_model = ''9'', bi_map = ''laptop''\<rparr>)])]"
  let ?entries = "[\<lparr>entry_name = ''card0'', edid_exists = True,
         edid_stdout = ''Manufacturer: ACME'' @ [CHR 0x0A] @ ''Model: X1'' @ [CHR 0x0A]\<rparr>]"
  have scan: "get_mon_from_edid (''Manufacturer: ACME'' @ [CHR 0x0A] @ ''Model: X1'' @ [CHR 0x0A])
       (BuiltIn \<lparr>bi_manufacturer = ''BOE'', bi_model = ''9'', bi_map = ''laptop''\<rparr>)
     = Inr None"
    by code_simp
  have mons: "get_conn_monitors ?conf ?entries = Inr [None]"
    by code_simp
  have cls: "get_cur_state_name [None] ?conf = Inl AttributeError"
    by (simp add: classifier_rejects_None)
  have "outcome (auto_win_main False ?conf ?entries adjwin sf) = Inl AttributeError"
    unfolding auto_win_main_def mons using cls by simp
  with scan mons cls show ?thesis
    by blast
qed

text \<open>
  C2, on the code: a descriptor whose serial number line is its last line yields no
  record, since the record is returned only when a later line that is none of the three
  kinds is read; the same descriptor followed by a line break yields the record.
\<close>

theorem serial_on_last_line:
  "get_mon_from_edid
       (''Manufacturer: ACME'' @ [CHR 0x0A] @ ''Model: X1'' @ [CHR 0x0A]
          @ ''Serial Number: SN123'')
       (BuiltIn \<lparr>bi_manufacturer = ''BOE'', bi_model = ''9'', bi_map = ''laptop''\<rparr>)
     = Inr None
   \<and> get_mon_from_edid
       (''Manufacturer: ACME'' @ [CHR 0x0A] @ ''Model: X1'' @ [CHR 0x0A]
          @ ''Serial Number: SN123'' @ [CHR 0x0A])
       (BuiltIn \<lparr>bi_manufacturer = ''BOE'', bi_model = ''9'', bi_map = ''laptop''\<rparr>)
     = Inr (Some \<lparr>manufacturer = ''ACME'', model = ''X1'', serial = ''SN123'',
                  built_in = False\<rparr>)"
  by code_simp


end
